theory Spec2Isabelle
  imports Main "HOL-Library.Sublist"
begin

section \<open>Data model\<close>

text \<open>
  The ledger of \<^verbatim>\<open>src/blockchain.js\<close>. Block objects are JavaScript objects that the
  chain array holds by reference and that \<^verbatim>\<open>_addBlock\<close> mutates in place, so blocks
  live in an explicit object store and the chain is a list of references.
\<close>

type_synonym ref = nat

text \<open>
  The two payload shapes the class builds: \<^verbatim>\<open>{ data: 'Genesis Block' }\<close> and
  \<^verbatim>\<open>{ owner: address, star }\<close>. The star itself is opaque.
\<close>

datatype 'a payload = Data string | Star string 'a

text \<open>\<^verbatim>\<open>body.owner\<close>: undefined on a payload with no owner field.\<close>

fun owner :: "'a payload \<Rightarrow> string option" where
  "owner (Data d) = None"
| "owner (Star a st) = Some a"

text \<open>
  A block. A field that has not been assigned yet is \<open>None\<close>. The body is the encoded
  payload.
\<close>

record Block =
  height :: "int option"
  time :: "string option"
  previousBlockHash :: "string option"
  hash :: "string option"
  body :: string

text \<open>
  The external collaborators: the content hash (over height, time, previous hash and
  body), the payload encoder and decoder, and \<^verbatim>\<open>bitcoinMessage.verify(message, address,
  signature)\<close>, which returns a boolean or throws (\<open>Inl\<close>, with the exception's message).
\<close>

record 'a services =
  SHA256 :: "int option \<Rightarrow> string option \<Rightarrow> string option \<Rightarrow> string \<Rightarrow> string"
  encode :: "'a payload \<Rightarrow> string"
  decode :: "string \<Rightarrow> 'a payload option"
  verify :: "string \<Rightarrow> string \<Rightarrow> string \<Rightarrow> string + bool"

text \<open>
  The object store (\<open>heap\<close>, with \<open>fresh\<close> the next unused reference) and the two fields
  of the \<^verbatim>\<open>Blockchain\<close> object: \<^verbatim>\<open>this.chain\<close> and \<^verbatim>\<open>this.height\<close> (\<open>bc_height\<close>, since
  \<open>height\<close> names the block's field).
\<close>

record world =
  heap :: "ref \<Rightarrow> Block"
  fresh :: ref
  chain :: "ref list"
  bc_height :: int

text \<open>
  How a call can fail: \<^verbatim>\<open>Error('Blockchain is not valid')\<close>, the two rejection strings of
  \<^verbatim>\<open>submitStar\<close>, a \<^verbatim>\<open>TypeError\<close> from reading a property of \<^verbatim>\<open>undefined\<close>, and an
  exception thrown by \<^verbatim>\<open>bitcoinMessage.verify\<close>.
\<close>

datatype error =
    ChainInvalid
  | ExpiredChallenge
  | InvalidSignature
  | TypeError
  | VerifyThrown string

section \<open>Strings, numbers and time\<close>

text \<open>\<^verbatim>\<open>Number.prototype.toString()\<close> on an integer: its decimal digits.\<close>

definition digit_char :: "int \<Rightarrow> char" where
  "digit_char d = char_of (48 + d)"

function digits_of :: "int \<Rightarrow> string" where
  "digits_of n =
     (if n < 10 then [digit_char n]
      else digits_of (n div 10) @ [digit_char (n mod 10)])"
  by pat_completeness auto
termination
  by (relation "measure nat") auto

declare digits_of.simps [simp del]

definition string_of_int :: "int \<Rightarrow> string" where
  "string_of_int i =
     (if i < 0 then CHR ''-'' # digits_of (- i) else digits_of i)"

text \<open>\<^verbatim>\<open>_generateNewTime()\<close>: the clock reading \<open>now\<close> (milliseconds) as a string.\<close>

definition generateNewTime :: "int \<Rightarrow> string" where
  "generateNewTime now = string_of_int now"

text \<open>\<^verbatim>\<open>message.split(':')\<close>.\<close>

fun split_colon :: "string \<Rightarrow> string list" where
  "split_colon [] = [[]]"
| "split_colon (c # cs) =
     (if c = CHR '':'' then [] # split_colon cs
      else (case split_colon cs of
              f # fs \<Rightarrow> (c # f) # fs
            | [] \<Rightarrow> [[c]]))"

text \<open>
  A JavaScript number, as far as \<^verbatim>\<open>parseInt\<close> can produce one: \<^verbatim>\<open>NaN\<close>, an integer that a
  double represents exactly, or an infinity.
\<close>

datatype number = NaN | Finite int | PlusInfinity | MinusInfinity

text \<open>
  The white space that \<^verbatim>\<open>parseInt\<close> skips is every code point of \<^verbatim>\<open>WhiteSpace\<close> and
  \<^verbatim>\<open>LineTerminator\<close>. A string is its UTF-8 bytes, so a code point above U+007F is two or
  three of them: U+00A0 is \<open>C2 A0\<close>, U+1680 \<open>E1 9A 80\<close>, U+2000 to U+200A \<open>E2 80 80\<close> to
  \<open>E2 80 8A\<close>, U+2028, U+2029 and U+202F \<open>E2 80 A8\<close>, \<open>E2 80 A9\<close> and \<open>E2 80 AF\<close>, U+205F
  \<open>E2 81 9F\<close>, U+3000 \<open>E3 80 80\<close> and U+FEFF \<open>EF BB BF\<close>. The byte \<open>A0\<close> on its own,
  which UTF-8 never has at the start of a code point, is read as U+00A0 too.
  \<open>whiteSpaceLength\<close> is the number of bytes of the white space code point at the head
  of the string, 0 if there is none.
\<close>

definition whiteSpaceLength :: "string \<Rightarrow> nat" where
  "whiteSpaceLength str =
     (case map of_char str :: int list of
        [] \<Rightarrow> 0
      | b0 # bs \<Rightarrow>
          if b0 = 0x20 \<or> (0x09 \<le> b0 \<and> b0 \<le> 0x0D) \<or> b0 = 0xA0 then 1
          else (case bs of
                  [] \<Rightarrow> 0
                | b1 # bs' \<Rightarrow>
                    if b0 = 0xC2 \<and> b1 = 0xA0 then 2
                    else (case bs' of
                            [] \<Rightarrow> 0
                          | b2 # bs'' \<Rightarrow>
                              if (b0 = 0xE1 \<and> b1 = 0x9A \<and> b2 = 0x80) \<or>
                                 (b0 = 0xE2 \<and> b1 = 0x80 \<and>
                                    ((0x80 \<le> b2 \<and> b2 \<le> 0x8A) \<or> b2 = 0xA8 \<or> b2 = 0xA9 \<or>
                                     b2 = 0xAF)) \<or>
                                 (b0 = 0xE2 \<and> b1 = 0x81 \<and> b2 = 0x9F) \<or>
                                 (b0 = 0xE3 \<and> b1 = 0x80 \<and> b2 = 0x80) \<or>
                                 (b0 = 0xEF \<and> b1 = 0xBB \<and> b2 = 0xBF)
                              then 3 else 0)))"

function skipWhiteSpace :: "string \<Rightarrow> string" where
  "skipWhiteSpace str =
     (if whiteSpaceLength str = 0 then str
      else skipWhiteSpace (drop (whiteSpaceLength str) str))"
  by pat_completeness auto
termination
proof (relation "measure length")
  show "wf (measure length)" by simp
next
  fix str :: string
  assume n: "whiteSpaceLength str \<noteq> 0"
  have "whiteSpaceLength [] = 0" by (simp add: whiteSpaceLength_def)
  with n have "str \<noteq> []" by auto
  with n show "(drop (whiteSpaceLength str) str, str) \<in> measure length" by simp
qed

declare skipWhiteSpace.simps [simp del]

text \<open>The value of a digit, in a radix up to 36.\<close>

definition digitValue :: "char \<Rightarrow> int option" where
  "digitValue c =
     (let n = (of_char c :: int)
      in if 48 \<le> n \<and> n \<le> 57 then Some (n - 48)
         else if 97 \<le> n \<and> n \<le> 122 then Some (n - 87)
         else if 65 \<le> n \<and> n \<le> 90 then Some (n - 55)
         else None)"

definition isDigit :: "int \<Rightarrow> char \<Rightarrow> bool" where
  "isDigit radix c = (case digitValue c of Some d \<Rightarrow> d < radix | None \<Rightarrow> False)"

definition digitsValue :: "int \<Rightarrow> string \<Rightarrow> int" where
  "digitsValue radix ds =
     foldl (\<lambda>acc c. acc * radix + (case digitValue c of Some d \<Rightarrow> d | None \<Rightarrow> 0)) 0 ds"

text \<open>
  The number value of a mathematical integer: the nearest double, ties to even. Below
  \<open>2^53\<close> in magnitude every integer is a double; above, the integer is rounded to 53
  significant bits, and to an infinity from \<open>2^1024\<close> on. (For more than 20 decimal digits
  an implementation may round the digits first; this is the rounding of the exact value.)
\<close>

function bitLength :: "int \<Rightarrow> int" where
  "bitLength n = (if n \<le> 0 then 0 else 1 + bitLength (n div 2))"
  by pat_completeness auto
termination
  by (relation "measure nat") auto

declare bitLength.simps [simp del]

definition toNumber :: "int \<Rightarrow> number" where
  "toNumber n =
     (if bitLength \<bar>n\<bar> \<le> 53 then Finite n
      else
        (let ulp = 2 ^ nat (bitLength \<bar>n\<bar> - 53);
             q = \<bar>n\<bar> div ulp;
             r = \<bar>n\<bar> mod ulp;
             q' = (if 2 * r > ulp \<or> (2 * r = ulp \<and> odd q) then q + 1 else q)
         in if q' * ulp \<ge> 2 ^ 1024 then (if n < 0 then MinusInfinity else PlusInfinity)
            else Finite (if n < 0 then - (q' * ulp) else q' * ulp)))"

text \<open>
  \<^verbatim>\<open>parseInt(string)\<close>: leading white space is skipped, then an optional sign, an optional
  \<^verbatim>\<open>0x\<close> prefix (radix 16), and the longest run of digits, whose value is converted to a
  number; with no digit the result is \<^verbatim>\<open>NaN\<close>.
\<close>

definition parseInt :: "string \<Rightarrow> number" where
  "parseInt str =
     (let s1 = skipWhiteSpace str;
          (sign, s2) = (case s1 of
                          c # cs \<Rightarrow> if c = CHR ''-'' then (- 1 :: int, cs)
                                    else if c = CHR ''+'' then (1, cs)
                                    else (1, s1)
                        | [] \<Rightarrow> (1, s1));
          (radix, s3) = (case s2 of
                           a # b # cs \<Rightarrow>
                             if a = CHR ''0'' \<and> (b = CHR ''x'' \<or> b = CHR ''X'') then (16 :: int, cs)
                             else (10, s2)
                         | _ \<Rightarrow> (10, s2));
          ds = takeWhile (isDigit radix) s3
      in if ds = [] then NaN else toNumber (sign * digitsValue radix ds))"

text \<open>
  \<^verbatim>\<open>parseInt(message.split(':')[1])\<close>: a message with no colon has no second field, and
  \<^verbatim>\<open>parseInt(undefined)\<close> is \<^verbatim>\<open>NaN\<close>.
\<close>

definition messageTime :: "string \<Rightarrow> number" where
  "messageTime message =
     (case split_colon message of
        f0 # f1 # fs \<Rightarrow> parseInt f1
      | _ \<Rightarrow> NaN)"

text \<open>
  \<^verbatim>\<open>moment(n)\<close>: a moment at \<open>n\<close> milliseconds, invalid (\<open>None\<close>) when \<open>n\<close> is \<^verbatim>\<open>NaN\<close>, an
  infinity or outside the range of a JavaScript date.
\<close>

definition moment_isValid :: "int \<Rightarrow> bool" where
  "moment_isValid ms = (\<bar>ms\<bar> \<le> 8640000000000000)"

definition moment :: "number \<Rightarrow> int option" where
  "moment n = (case n of
                 Finite ms \<Rightarrow> if moment_isValid ms then Some ms else None
               | _ \<Rightarrow> None)"

text \<open>
  \<^verbatim>\<open>a.diff(b, 'seconds')\<close>: the difference in milliseconds over 1000, truncated towards
  zero; \<^verbatim>\<open>NaN\<close> when either moment is invalid.
\<close>

definition absFloor_div :: "int \<Rightarrow> int \<Rightarrow> int" where
  "absFloor_div a b = (if a < 0 then - ((- a) div b) else a div b)"

definition diff_seconds :: "int option \<Rightarrow> int option \<Rightarrow> int option" where
  "diff_seconds a b =
     (case a of
        None \<Rightarrow> None
      | Some x \<Rightarrow> (case b of None \<Rightarrow> None | Some y \<Rightarrow> Some (absFloor_div (x - y) 1000)))"

definition FIVE_MINUTES_IN_SECONDS :: int where
  "FIVE_MINUTES_IN_SECONDS = 300"

text \<open>
  Lines 134 to 141 of \<^verbatim>\<open>submitStar\<close>: the elapsed seconds between the message's time and
  the clock reading \<open>now\<close>, and the test \<^verbatim>\<open>elapsedTimeInSeconds >= FIVE_MINUTES_IN_SECONDS\<close>,
  which is false on \<^verbatim>\<open>NaN\<close>.
\<close>

definition elapsedTimeInSeconds :: "int \<Rightarrow> string \<Rightarrow> int option" where
  "elapsedTimeInSeconds now message =
     (let mMessageTime = moment (messageTime message);
          mToday = Some now
      in diff_seconds mToday mMessageTime)"

definition isExpired :: "int \<Rightarrow> string \<Rightarrow> bool" where
  "isExpired now message =
     (case elapsedTimeInSeconds now message of
        None \<Rightarrow> False
      | Some e \<Rightarrow> e \<ge> FIVE_MINUTES_IN_SECONDS)"

section \<open>Block\<close>

text \<open>
  Modelled from the spec: \<^verbatim>\<open>block.js\<close> (the \<^verbatim>\<open>Block\<close> class) is not among the sources.
  The constructor leaves height, time, previous hash and hash unset and stores the
  encoded payload as the body.
\<close>

definition Block_new :: "'a services \<Rightarrow> 'a payload \<Rightarrow> Block" where
  "Block_new E p =
     \<lparr>height = None, time = None, previousBlockHash = None, hash = None, body = encode E p\<rparr>"

text \<open>
  Modelled from the spec: \<^verbatim>\<open>generateNewHash\<close> of the missing \<^verbatim>\<open>block.js\<close>, the content
  hash over the block's current height, time, previous hash and body (never the stored
  hash).
\<close>

definition generateNewHash :: "'a services \<Rightarrow> Block \<Rightarrow> string" where
  "generateNewHash E b = SHA256 E (height b) (time b) (previousBlockHash b) (body b)"

text \<open>
  Modelled from the spec: \<^verbatim>\<open>validate\<close> of the missing \<^verbatim>\<open>block.js\<close> recomputes the hash and
  compares it with the stored one.
\<close>

definition validate :: "'a services \<Rightarrow> Block \<Rightarrow> bool" where
  "validate E b = (hash b = Some (generateNewHash E b))"

text \<open>
  Modelled from the spec: \<^verbatim>\<open>getBData\<close> of the missing \<^verbatim>\<open>block.js\<close> decodes the body;
  \<open>None\<close> is the decode error it throws.
\<close>

definition getBData :: "'a services \<Rightarrow> Block \<Rightarrow> 'a payload option" where
  "getBData E b = decode E (body b)"

section \<open>Blockchain\<close>

text \<open>Lines 26 and 27 of the constructor, in a store \<open>h\<close> whose next unused reference is \<open>f\<close>.\<close>

definition Blockchain_new :: "(ref \<Rightarrow> Block) \<Rightarrow> ref \<Rightarrow> world" where
  "Blockchain_new h f = \<lparr>heap = h, fresh = f, chain = [], bc_height = - 1\<rparr>"

text \<open>\<^verbatim>\<open>new BlockClass.Block(payload)\<close>: a new object at the next unused reference.\<close>

definition new_Block :: "'a services \<Rightarrow> 'a payload \<Rightarrow> world \<Rightarrow> ref \<times> world" where
  "new_Block E p s =
     (fresh s, s\<lparr>heap := (heap s)(fresh s := Block_new E p), fresh := Suc (fresh s)\<rparr>)"

text \<open>An assignment to fields of the object at \<open>r\<close>.\<close>

definition assign :: "ref \<Rightarrow> (Block \<Rightarrow> Block) \<Rightarrow> world \<Rightarrow> world" where
  "assign r f s = s\<lparr>heap := (heap s)(r := f (heap s r))\<rparr>"

text \<open>\<^verbatim>\<open>getChainHeight()\<close>.\<close>

definition getChainHeight :: "world \<Rightarrow> int \<times> world" where
  "getChainHeight s = (bc_height s, s)"

text \<open>
  The loop of \<^verbatim>\<open>validateChain()\<close> over the remaining blocks, with the error log so far.
  \<^verbatim>\<open>self.chain[block.height - 1]\<close> is \<^verbatim>\<open>undefined\<close> past the end of the array, and reading
  its \<^verbatim>\<open>hash\<close> throws; the promise then rejects and the log is lost. An unset height is not
  greater than 0.
\<close>

fun validateChain_loop ::
  "'a services \<Rightarrow> world \<Rightarrow> ref list \<Rightarrow> ref list \<Rightarrow> error + ref list" where
  "validateChain_loop E s [] errorLog = Inr errorLog"
| "validateChain_loop E s (r # rs) errorLog =
     (let block = heap s r;
          isValid = validate E block;
          errorLog1 = (if \<not> isValid then errorLog @ [r] else errorLog)
      in case height block of
           None \<Rightarrow> validateChain_loop E s rs errorLog1
         | Some h \<Rightarrow>
             if h > 0 then
               (if nat (h - 1) < length (chain s) then
                  (let isPreviousHashValid =
                         (previousBlockHash block = hash (heap s (chain s ! nat (h - 1))))
                   in validateChain_loop E s rs
                        (if \<not> isPreviousHashValid then errorLog1 @ [r] else errorLog1))
                else Inl TypeError)
             else validateChain_loop E s rs errorLog1)"

definition validateChain :: "'a services \<Rightarrow> world \<Rightarrow> (error + ref list) \<times> world" where
  "validateChain E s = (validateChain_loop E s (chain s) [], s)"

text \<open>
  \<^verbatim>\<open>_addBlock(block)\<close> at clock reading \<open>now\<close>, the block given by reference. The fields are
  assigned one after the other, as in lines 76 to 84. With \<^verbatim>\<open>blockHeight > 0\<close> and an empty
  array, \<^verbatim>\<open>self.chain[-1]\<close> is \<^verbatim>\<open>undefined\<close> and line 79 throws, after line 77 has set the
  height.
\<close>

definition addBlock :: "'a services \<Rightarrow> int \<Rightarrow> ref \<Rightarrow> world \<Rightarrow> (error + ref) \<times> world" where
  "addBlock E now r s =
     (case fst (validateChain E s) of
        Inl err \<Rightarrow> (Inl err, s)
      | Inr errorLogs \<Rightarrow>
          if length errorLogs > 0 then (Inl ChainInvalid, s)
          else
            (let blockHeight = bc_height s + 1;
                 s1 = assign r (\<lambda>b. b\<lparr>height := Some blockHeight\<rparr>) s
             in if blockHeight > 0 \<and> chain s1 = [] then (Inl TypeError, s1)
                else
                  (let s2 = (if blockHeight > 0
                             then assign r (\<lambda>b. b\<lparr>previousBlockHash :=
                                                  hash (heap s1 (last (chain s1)))\<rparr>) s1
                             else s1);
                       s3 = assign r (\<lambda>b. b\<lparr>time := Some (generateNewTime now)\<rparr>) s2;
                       s4 = assign r (\<lambda>b. b\<lparr>hash := Some (generateNewHash E b)\<rparr>) s3
                   in (Inr r, s4\<lparr>chain := chain s4 @ [r], bc_height := blockHeight\<rparr>))))"

text \<open>\<^verbatim>\<open>initializeChain()\<close>.\<close>

definition initializeChain :: "'a services \<Rightarrow> int \<Rightarrow> world \<Rightarrow> (error + unit) \<times> world" where
  "initializeChain E now s =
     (if bc_height s = - 1 then
        (let (block, s1) = new_Block E (Data ''Genesis Block'') s
         in case addBlock E now block s1 of
              (Inl err, s2) \<Rightarrow> (Inl err, s2)
            | (Inr added, s2) \<Rightarrow> (Inr (), s2))
      else (Inr (), s))"

text \<open>\<^verbatim>\<open>requestMessageOwnershipVerification(address)\<close>.\<close>

definition requestMessageOwnershipVerification :: "int \<Rightarrow> string \<Rightarrow> world \<Rightarrow> string \<times> world" where
  "requestMessageOwnershipVerification now address s =
     (address @ '':'' @ generateNewTime now @ '':starRegistry'', s)"

text \<open>
  \<^verbatim>\<open>submitStar(address, message, signature, star)\<close>; \<open>now\<close> is the clock read by
  \<^verbatim>\<open>moment()\<close> and \<open>commitTime\<close> the later reading of \<^verbatim>\<open>_addBlock\<close>.
\<close>

definition submitStar ::
  "'a services \<Rightarrow> int \<Rightarrow> int \<Rightarrow> string \<Rightarrow> string \<Rightarrow> string \<Rightarrow> 'a \<Rightarrow> world
     \<Rightarrow> (error + ref) \<times> world" where
  "submitStar E now commitTime address message signature star s =
     (if isExpired now message then (Inl ExpiredChallenge, s)
      else
        (case verify E message address signature of
           Inl thrown \<Rightarrow> (Inl (VerifyThrown thrown), s)
         | Inr isMessageValid \<Rightarrow>
             if \<not> isMessageValid then (Inl InvalidSignature, s)
             else
               (let (block, s1) = new_Block E (Star address star) s
                in addBlock E commitTime block s1)))"

text \<open>\<^verbatim>\<open>getBlockByHash(hash)\<close> and \<^verbatim>\<open>getBlockByHeight(height)\<close>: \<^verbatim>\<open>Array.prototype.find\<close>.\<close>

definition getBlockByHash :: "string \<Rightarrow> world \<Rightarrow> ref option \<times> world" where
  "getBlockByHash h s = (find (\<lambda>block. hash (heap s block) = Some h) (chain s), s)"

definition getBlockByHeight :: "int \<Rightarrow> world \<Rightarrow> ref option \<times> world" where
  "getBlockByHeight h s = (find (\<lambda>p. height (heap s p) = Some h) (chain s), s)"

text \<open>
  The \<^verbatim>\<open>forEach\<close> of \<^verbatim>\<open>getStarsByWalletAddress(address)\<close> over the remaining blocks, with
  the stars collected so far.
\<close>

fun getStars_loop ::
  "'a services \<Rightarrow> string \<Rightarrow> world \<Rightarrow> ref list \<Rightarrow> 'a payload list \<Rightarrow> 'a payload list" where
  "getStars_loop E address s [] stars = stars"
| "getStars_loop E address s (r # rs) stars =
     (let block = heap s r
      in if height block = Some 0 then getStars_loop E address s rs stars
         else (case getBData E block of
                 None \<Rightarrow> getStars_loop E address s rs stars
               | Some bdata \<Rightarrow>
                   if owner bdata = Some address
                   then getStars_loop E address s rs (stars @ [bdata])
                   else getStars_loop E address s rs stars))"

definition getStarsByWalletAddress ::
  "'a services \<Rightarrow> string \<Rightarrow> world \<Rightarrow> 'a payload list \<times> world" where
  "getStarsByWalletAddress E address s = (getStars_loop E address s (chain s) [], s)"

text \<open>\<^verbatim>\<open>tamperWithBlockByHeight(height)\<close>.\<close>

definition tamperWithBlockByHeight :: "int \<Rightarrow> world \<Rightarrow> ref option \<times> world" where
  "tamperWithBlockByHeight h s =
     (case fst (getBlockByHeight h s) of
        None \<Rightarrow> (None, s)
      | Some block \<Rightarrow>
          (Some block, assign block (\<lambda>b. b\<lparr>hash := Some (''123'' @ string_of_int h)\<rparr>) s))"

section \<open>Derived notions\<close>

text \<open>
  The block that lines 77 to 82 of \<^verbatim>\<open>_addBlock\<close> leave at \<open>r\<close> when every assignment goes
  through.
\<close>

definition sealed :: "'a services \<Rightarrow> int \<Rightarrow> world \<Rightarrow> ref \<Rightarrow> Block" where
  "sealed E now s r =
     (let b1 = (heap s r)\<lparr>height := Some (bc_height s + 1)\<rparr>;
          b2 = (if bc_height s + 1 > 0
                then b1\<lparr>previousBlockHash := hash (heap s (last (chain s)))\<rparr> else b1);
          b3 = b2\<lparr>time := Some (generateNewTime now)\<rparr>
      in b3\<lparr>hash := Some (generateNewHash E b3)\<rparr>)"

text \<open>
  What one iteration of the loop of \<^verbatim>\<open>validateChain\<close> adds to the error log for the block
  at \<open>r\<close>: the block once if \<^verbatim>\<open>validate()\<close> fails, and once more if its previous hash does
  not match.
\<close>

definition block_errors :: "'a services \<Rightarrow> world \<Rightarrow> ref \<Rightarrow> ref list" where
  "block_errors E s r =
     (if \<not> validate E (heap s r) then [r] else []) @
     (case height (heap s r) of
        None \<Rightarrow> []
      | Some h \<Rightarrow>
          if h > 0 \<and> previousBlockHash (heap s r) \<noteq> hash (heap s (chain s ! nat (h - 1)))
          then [r] else [])"

text \<open>
  The invariants of the data model: the cached height is the chain length minus one, no
  object is in the chain twice, every block in the chain is allocated and validates,
  block \<open>i\<close> has height \<open>i\<close>, the first block has no previous hash and every other block
  holds the hash of its predecessor.
\<close>

definition chain_inv :: "'a services \<Rightarrow> world \<Rightarrow> bool" where
  "chain_inv E s =
     (bc_height s = int (length (chain s)) - 1 \<and>
      distinct (chain s) \<and>
      (\<forall>r \<in> set (chain s). r < fresh s \<and> validate E (heap s r)) \<and>
      (\<forall>i < length (chain s).
         height (heap s (chain s ! i)) = Some (int i) \<and>
         previousBlockHash (heap s (chain s ! i)) =
           (if i = 0 then None else hash (heap s (chain s ! (i - 1))))))"

text \<open>
  The ledger states of normal operation: from the constructor's empty ledger by
  \<^verbatim>\<open>initializeChain\<close>, by constructing blocks, by \<^verbatim>\<open>_addBlock\<close> on an allocated block that
  is not in the chain yet (with its previous hash still unset if it becomes the first
  block), and by \<^verbatim>\<open>submitStar\<close>, whatever each call returns.
\<close>

inductive reachable :: "'a services \<Rightarrow> world \<Rightarrow> bool" for E :: "'a services" where
  constructed: "reachable E (Blockchain_new h f)"
| initialized: "reachable E s \<Longrightarrow> reachable E (snd (initializeChain E now s))"
| allocated: "reachable E s \<Longrightarrow> reachable E (snd (new_Block E p s))"
| appended:
    "reachable E s \<Longrightarrow> r < fresh s \<Longrightarrow> r \<notin> set (chain s) \<Longrightarrow>
     (chain s = [] \<longrightarrow> previousBlockHash (heap s r) = None) \<Longrightarrow>
     reachable E (snd (addBlock E now r s))"
| submitted:
    "reachable E s \<Longrightarrow>
     reachable E (snd (submitStar E now commitTime address message signature star s))"

text \<open>
  The ledger states that any calls of the class's methods can produce, with any
  arguments: \<^verbatim>\<open>_addBlock\<close> on any allocated object and \<^verbatim>\<open>tamperWithBlockByHeight\<close>
  included.
\<close>

inductive reachable_any :: "'a services \<Rightarrow> world \<Rightarrow> bool" for E :: "'a services" where
  any_constructed: "reachable_any E (Blockchain_new h f)"
| any_initialized: "reachable_any E s \<Longrightarrow> reachable_any E (snd (initializeChain E now s))"
| any_allocated: "reachable_any E s \<Longrightarrow> reachable_any E (snd (new_Block E p s))"
| any_appended:
    "reachable_any E s \<Longrightarrow> r < fresh s \<Longrightarrow> reachable_any E (snd (addBlock E now r s))"
| any_submitted:
    "reachable_any E s \<Longrightarrow>
     reachable_any E (snd (submitStar E now commitTime address message signature star s))"
| any_tampered: "reachable_any E s \<Longrightarrow> reachable_any E (snd (tamperWithBlockByHeight h s))"

text \<open>
  The specification of \<^verbatim>\<open>getRecordsByOwner\<close>, in its words: for every non-genesis block
  (height 0 identifies the genesis block), attempt to decode the body; on success, if
  the decoded payload's owner equals the address, include the payload; a decode failure
  is skipped. The payloads are returned in chain order.
\<close>

definition spec_record :: "'a services \<Rightarrow> string \<Rightarrow> Block \<Rightarrow> 'a payload option" where
  "spec_record E address b =
     (if height b = Some 0 then None
      else (case getBData E b of
              None \<Rightarrow> None
            | Some p \<Rightarrow> if owner p = Some address then Some p else None))"

definition spec_getRecordsByOwner :: "'a services \<Rightarrow> string \<Rightarrow> world \<Rightarrow> 'a payload list" where
  "spec_getRecordsByOwner E address s =
     List.map_filter (\<lambda>r. spec_record E address (heap s r)) (chain s)"

text \<open>
  The specification's expected shape of a challenge message: three colon-delimited
  fields, the second one a timestamp (decimal digits).
\<close>

definition spec_wellShaped :: "string \<Rightarrow> bool" where
  "spec_wellShaped message =
     (case split_colon message of
        [address, timestamp, tag] \<Rightarrow> timestamp \<noteq> [] \<and> list_all (isDigit 10) timestamp
      | _ \<Rightarrow> False)"

section \<open>Example services and ledgers\<close>

text \<open>
  Concrete collaborators for the examples: a hash that writes the four fields out, a
  tagged text encoding of the payload, and a signature scheme in which the signature of
  a message by an address is the address, a slash and the message (an empty signature
  makes \<open>verify\<close> throw).
\<close>

definition ex_hash :: "int option \<Rightarrow> string option \<Rightarrow> string option \<Rightarrow> string \<Rightarrow> string" where
  "ex_hash h t p b =
     (case h of None \<Rightarrow> ''-'' | Some i \<Rightarrow> string_of_int i) @ ''|'' @
     (case t of None \<Rightarrow> ''-'' | Some x \<Rightarrow> x) @ ''|'' @
     (case p of None \<Rightarrow> ''-'' | Some x \<Rightarrow> x) @ ''|'' @ b"

definition ex_encode :: "string payload \<Rightarrow> string" where
  "ex_encode p = (case p of Data d \<Rightarrow> CHR ''D'' # d | Star a st \<Rightarrow> CHR ''S'' # a @ '':'' @ st)"

definition ex_decode :: "string \<Rightarrow> string payload option" where
  "ex_decode b =
     (case b of
        [] \<Rightarrow> None
      | c # cs \<Rightarrow>
          if c = CHR ''D'' then Some (Data cs)
          else if c = CHR ''S'' then
            (case split_colon cs of [a, st] \<Rightarrow> Some (Star a st) | _ \<Rightarrow> None)
          else None)"

definition ex_verify :: "string \<Rightarrow> string \<Rightarrow> string \<Rightarrow> string + bool" where
  "ex_verify message address signature =
     (if signature = [] then Inl ''Invalid signature length''
      else Inr (signature = address @ ''/'' @ message))"

definition ex_services :: "string services" where
  "ex_services =
     \<lparr>SHA256 = ex_hash, encode = ex_encode, decode = ex_decode, verify = ex_verify\<rparr>"

definition ex_blank :: Block where
  "ex_blank = \<lparr>height = None, time = None, previousBlockHash = None, hash = None, body = []\<rparr>"

text \<open>The empty ledger, and the ledger after \<^verbatim>\<open>initializeChain\<close> at time 1000.\<close>

definition ex_empty :: world where
  "ex_empty = Blockchain_new (\<lambda>r. ex_blank) 0"

definition ex_genesis :: world where
  "ex_genesis = snd (initializeChain ex_services 1000 ex_empty)"

text \<open>
  A caller constructs a block (it gets reference 1) and hands the same object to
  \<^verbatim>\<open>_addBlock\<close> twice.
\<close>

definition ex_allocated :: world where
  "ex_allocated = snd (new_Block ex_services (Star ''addr'' ''vega'') ex_genesis)"

definition ex_once :: world where
  "ex_once = snd (addBlock ex_services 2000 1 ex_allocated)"

definition ex_twice :: world where
  "ex_twice = snd (addBlock ex_services 3000 1 ex_once)"

text \<open>
  A second star is submitted (reference 2), then the blocks at heights 1 and 2 are
  tampered with.
\<close>

definition ex_two :: world where
  "ex_two = snd (submitStar ex_services 2600 2700 ''addr'' ''addr:2500:starRegistry''
                   ''addr/addr:2500:starRegistry'' ''rigel'' ex_once)"

definition ex_tampered :: world where
  "ex_tampered = snd (tamperWithBlockByHeight 2 (snd (tamperWithBlockByHeight 1 ex_two)))"

section \<open>The chain invariant\<close>

text \<open>
  The three ways \<^verbatim>\<open>_addBlock\<close> ends: the validation failed or threw, line 79 threw, or
  the block was committed.
\<close>

lemma addBlock_result:
  "addBlock E now r s =
     (case validateChain_loop E s (chain s) [] of
        Inl e \<Rightarrow> (Inl e, s)
      | Inr errs \<Rightarrow>
          if errs \<noteq> [] then (Inl ChainInvalid, s)
          else if bc_height s + 1 > 0 \<and> chain s = []
          then (Inl TypeError, assign r (\<lambda>b. b\<lparr>height := Some (bc_height s + 1)\<rparr>) s)
          else (Inr r, s\<lparr>heap := (heap s)(r := sealed E now s r),
                         chain := chain s @ [r], bc_height := bc_height s + 1\<rparr>))"
  by (auto simp: addBlock_def validateChain_def Let_def assign_def sealed_def generateNewHash_def
           split: sum.splits)

lemma validateChain_loop_step:
  "validateChain_loop E s (r # rs) acc = Inr out \<Longrightarrow>
   validateChain_loop E s rs (acc @ block_errors E s r) = Inr out"
  by (auto simp: Let_def block_errors_def split: option.splits if_splits)

lemma validateChain_loop_log:
  "validateChain_loop E s rs acc = Inr out \<Longrightarrow>
   out = acc @ concat (map (block_errors E s) rs)"
proof (induction rs arbitrary: acc)
  case Nil
  then show ?case by simp
next
  case (Cons r rs)
  from Cons.prems have "validateChain_loop E s rs (acc @ block_errors E s r) = Inr out"
    by (rule validateChain_loop_step)
  then have "out = (acc @ block_errors E s r) @ concat (map (block_errors E s) rs)"
    by (rule Cons.IH)
  then show ?case by simp
qed

lemma validateChain_loop_clean:
  "(\<forall>r \<in> set rs. validate E (heap s r) \<and>
      (\<forall>h. height (heap s r) = Some h \<longrightarrow> h > 0 \<longrightarrow>
         nat (h - 1) < length (chain s) \<and>
         previousBlockHash (heap s r) = hash (heap s (chain s ! nat (h - 1))))) \<Longrightarrow>
   validateChain_loop E s rs acc = Inr acc"
  by (induction rs arbitrary: acc) (auto simp: Let_def split: option.splits)

lemma chain_inv_validateChain:
  assumes "chain_inv E s"
  shows "validateChain_loop E s (chain s) [] = Inr []"
proof (rule validateChain_loop_clean, intro ballI conjI allI impI)
  fix r assume r: "r \<in> set (chain s)"
  from r assms show "validate E (heap s r)" by (simp add: chain_inv_def)
  from r obtain i where i: "i < length (chain s)" "chain s ! i = r"
    by (auto simp: in_set_conv_nth)
  fix h assume h: "height (heap s r) = Some h" "h > 0"
  from assms i have hi: "height (heap s r) = Some (int i)"
    and pi: "previousBlockHash (heap s r) = (if i = 0 then None else hash (heap s (chain s ! (i - 1))))"
    by (auto simp: chain_inv_def)
  from hi h have hh: "h = int i" "i > 0" by auto
  then have n: "nat (h - 1) = i - 1" by simp
  show "nat (h - 1) < length (chain s)" using n i by simp
  show "previousBlockHash (heap s r) = hash (heap s (chain s ! nat (h - 1)))"
    using pi hh n by simp
qed


lemma chain_inv_frame:
  assumes "chain_inv E s"
    and "\<forall>r \<in> set (chain s). heap s' r = heap s r"
    and "chain s' = chain s" and "bc_height s' = bc_height s" and "fresh s \<le> fresh s'"
  shows "chain_inv E s'"
proof -
  have nth: "heap s' (chain s ! i) = heap s (chain s ! i)" if "i < length (chain s)" for i
    using assms(2) that by simp
  have nth': "heap s' (chain s ! (i - 1)) = heap s (chain s ! (i - 1))"
    if "i < length (chain s)" for i
    using nth [of "i - 1"] that by simp
  show ?thesis
    using assms nth nth' unfolding chain_inv_def by (auto simp: less_le_trans)
qed

lemma chain_inv_new_Block:
  "chain_inv E s \<Longrightarrow> chain_inv E (snd (new_Block E p s))"
  by (rule chain_inv_frame [where s = s]) (auto simp: new_Block_def chain_inv_def)

lemma sealed_fields:
  "height (sealed E now s r) = Some (bc_height s + 1)"
  "previousBlockHash (sealed E now s r) =
     (if bc_height s + 1 > 0 then hash (heap s (last (chain s)))
      else previousBlockHash (heap s r))"
  "time (sealed E now s r) = Some (generateNewTime now)"
  "body (sealed E now s r) = body (heap s r)"
  "validate E (sealed E now s r)"
  by (simp_all add: sealed_def Let_def validate_def generateNewHash_def)

lemma chain_inv_commit:
  assumes inv: "chain_inv E s" and r: "r < fresh s" "r \<notin> set (chain s)"
    and g: "chain s = [] \<longrightarrow> previousBlockHash (heap s r) = None"
  shows "chain_inv E (s\<lparr>heap := (heap s)(r := sealed E now s r),
                        chain := chain s @ [r], bc_height := bc_height s + 1\<rparr>)"
    (is "chain_inv E ?s'")
proof -
  let ?n = "length (chain s)"
  from inv have h: "bc_height s = int ?n - 1" by (simp add: chain_inv_def)
  have old: "heap ?s' (chain s ! i) = heap s (chain s ! i)" if "i < ?n" for i
    using r(2) that by (auto simp: nth_mem)
  have "height (heap ?s' (chain ?s' ! i)) = Some (int i) \<and>
        previousBlockHash (heap ?s' (chain ?s' ! i)) =
          (if i = 0 then None else hash (heap ?s' (chain ?s' ! (i - 1))))"
    if i: "i < length (chain ?s')" for i
  proof (cases "i < ?n")
    case True
    then have "i - 1 < ?n" by simp
    with True inv old [of i] old [of "i - 1"] show ?thesis
      by (simp add: nth_append chain_inv_def)
  next
    case False
    with i have e: "i = ?n" by simp
    show ?thesis
    proof (cases "?n = 0")
      case True
      with e h g show ?thesis by (simp add: sealed_fields)
    next
      case False
      then have "chain s \<noteq> []" by simp
      then have "last (chain s) = chain s ! (?n - 1)" by (rule last_conv_nth)
      with False e h old [of "?n - 1"] show ?thesis
        by (simp add: sealed_fields nth_append)
    qed
  qed
  moreover have "\<forall>q \<in> set (chain ?s'). q < fresh ?s' \<and> validate E (heap ?s' q)"
    using inv r by (auto simp: chain_inv_def sealed_fields)
  moreover have "distinct (chain ?s')" using inv r by (simp add: chain_inv_def)
  moreover have "bc_height ?s' = int (length (chain ?s')) - 1" using h by simp
  ultimately show ?thesis unfolding chain_inv_def by blast
qed

lemma addBlock_chain_inv:
  assumes "chain_inv E s"
  shows "addBlock E now r s =
           (Inr r, s\<lparr>heap := (heap s)(r := sealed E now s r),
                     chain := chain s @ [r], bc_height := bc_height s + 1\<rparr>)"
proof -
  from assms have "chain s = [] \<longrightarrow> bc_height s + 1 = 0" by (auto simp: chain_inv_def)
  with chain_inv_validateChain [OF assms] show ?thesis
    by (auto simp: addBlock_result)
qed

lemma chain_inv_addBlock:
  assumes "chain_inv E s" "r < fresh s" "r \<notin> set (chain s)"
    "chain s = [] \<longrightarrow> previousBlockHash (heap s r) = None"
  shows "chain_inv E (snd (addBlock E now r s))"
  using chain_inv_commit [OF assms] by (simp add: addBlock_chain_inv [OF assms(1)])

lemma chain_inv_append_new:
  assumes "chain_inv E s"
  shows "chain_inv E (snd (addBlock E now (fst (new_Block E p s)) (snd (new_Block E p s))))"
proof (rule chain_inv_addBlock)
  show "chain_inv E (snd (new_Block E p s))" using assms by (rule chain_inv_new_Block)
  show "fst (new_Block E p s) < fresh (snd (new_Block E p s))" by (simp add: new_Block_def)
  show "fst (new_Block E p s) \<notin> set (chain (snd (new_Block E p s)))"
    using assms by (auto simp: new_Block_def chain_inv_def)
  show "chain (snd (new_Block E p s)) = [] \<longrightarrow>
        previousBlockHash (heap (snd (new_Block E p s)) (fst (new_Block E p s))) = None"
    by (simp add: new_Block_def Block_new_def)
qed

lemma chain_inv_initializeChain:
  "chain_inv E s \<Longrightarrow> chain_inv E (snd (initializeChain E now s))"
  using chain_inv_append_new [of E s now "Data ''Genesis Block''"]
  by (auto simp: initializeChain_def split: prod.splits sum.splits)

lemma chain_inv_submitStar:
  "chain_inv E s \<Longrightarrow>
   chain_inv E (snd (submitStar E now commitTime address message signature star s))"
  using chain_inv_append_new [of E s commitTime "Star address star"]
  by (auto simp: submitStar_def split: prod.splits sum.splits)

lemma reachable_chain_inv: "reachable E s \<Longrightarrow> chain_inv E s"
proof (induction rule: reachable.induct)
  case (constructed h f)
  show ?case by (simp add: chain_inv_def Blockchain_new_def)
next
  case (initialized s now)
  then show ?case by (simp add: chain_inv_initializeChain)
next
  case (allocated s p)
  then show ?case by (simp add: chain_inv_new_Block)
next
  case (appended s r now)
  then show ?case by (simp add: chain_inv_addBlock)
next
  case (submitted s now commitTime address message signature star)
  then show ?case by (simp add: chain_inv_submitStar)
qed


section \<open>Example ledgers\<close>

lemma ex_tampered_log: "fst (validateChain ex_services ex_tampered) = Inr [1, 2, 2]"
  by code_simp

lemma ex_genesis_reachable: "reachable ex_services ex_genesis"
  unfolding ex_genesis_def ex_empty_def
  by (intro reachable.initialized reachable.constructed)

lemma ex_once_reachable: "reachable ex_services ex_once"
proof -
  have a: "reachable ex_services ex_allocated"
    unfolding ex_allocated_def by (rule reachable.allocated [OF ex_genesis_reachable])
  have 1: "1 < fresh ex_allocated" by code_simp
  have 2: "1 \<notin> set (chain ex_allocated)" by code_simp
  have 3: "chain ex_allocated = [] \<longrightarrow> previousBlockHash (heap ex_allocated 1) = None"
    by code_simp
  show ?thesis unfolding ex_once_def by (rule reachable.appended [OF a 1 2 3])
qed

lemma ex_two_reachable: "reachable ex_services ex_two"
  unfolding ex_two_def by (rule reachable.submitted [OF ex_once_reachable])

lemma ex_genesis_reachable_any: "reachable_any ex_services ex_genesis"
  unfolding ex_genesis_def ex_empty_def
  by (intro reachable_any.any_initialized reachable_any.any_constructed)

lemma ex_tampered_reachable_any: "reachable_any ex_services ex_tampered"
proof -
  have a: "reachable_any ex_services ex_allocated"
    unfolding ex_allocated_def
    by (rule reachable_any.any_allocated [OF ex_genesis_reachable_any])
  have 1: "1 < fresh ex_allocated" by code_simp
  have "reachable_any ex_services ex_once"
    unfolding ex_once_def by (rule reachable_any.any_appended [OF a 1])
  then have "reachable_any ex_services ex_two"
    unfolding ex_two_def by (rule reachable_any.any_submitted)
  then show ?thesis
    unfolding ex_tampered_def by (intro reachable_any.any_tampered)
qed

lemma ex_two_chain: "chain ex_two = [0, 1, 2]"
  by code_simp

lemma ex_genesis_valid: "fst (validateChain ex_services ex_genesis) = Inr []"
  by code_simp

section \<open>The cached height\<close>

lemma height_cache_commit:
  "bc_height s = int (length (chain s)) - 1 \<Longrightarrow>
   bc_height (snd (addBlock E now r s)) = int (length (chain (snd (addBlock E now r s)))) - 1"
  by (auto simp: addBlock_result assign_def split: sum.splits)

lemma reachable_any_height_cache:
  "reachable_any E s \<Longrightarrow> bc_height s = int (length (chain s)) - 1"
proof (induction rule: reachable_any.induct)
  case (any_constructed h f)
  show ?case by (simp add: Blockchain_new_def)
next
  case (any_initialized s now)
  then show ?case
    using height_cache_commit [of "snd (new_Block E (Data ''Genesis Block'') s)" E now "fresh s"]
    by (auto simp: initializeChain_def new_Block_def split: prod.splits sum.splits)
next
  case (any_allocated s p)
  then show ?case by (simp add: new_Block_def)
next
  case (any_appended s r now)
  then show ?case by (simp add: height_cache_commit)
next
  case (any_submitted s now commitTime address message signature star)
  then show ?case
    using height_cache_commit [of "snd (new_Block E (Star address star) s)" E commitTime "fresh s"]
    by (auto simp: submitStar_def new_Block_def split: prod.splits sum.splits)
next
  case (any_tampered s h)
  then show ?case
    by (auto simp: tamperWithBlockByHeight_def assign_def split: option.splits)
qed

lemma initializeChain_empty:
  assumes "bc_height s = - 1" and "chain s = []"
  shows "\<exists>s'. initializeChain E now s = (Inr (), s') \<and> chain s' = [fresh s] \<and>
           bc_height s' = 0 \<and> fresh s' = Suc (fresh s) \<and>
           body (heap s' (fresh s)) = encode E (Data ''Genesis Block'') \<and>
           height (heap s' (fresh s)) = Some 0 \<and>
           previousBlockHash (heap s' (fresh s)) = None \<and>
           (\<forall>r. r \<noteq> fresh s \<longrightarrow> heap s' r = heap s r)"
  using assms
  by (simp add: initializeChain_def addBlock_result new_Block_def sealed_fields Block_new_def)

section \<open>Freshness of a challenge message\<close>

text \<open>
  The expiry test in terms of milliseconds: the message enters it only through its
  parsed number. With a number \<open>t\<close> that is a valid date, the elapsed seconds reach 300
  exactly when \<open>now - t\<close> reaches 300000; with any other number the elapsed time is \<^verbatim>\<open>NaN\<close>
  and the test is false.
\<close>

lemma isExpired_moment:
  "isExpired now message \<longleftrightarrow>
     (case moment (messageTime message) of None \<Rightarrow> False | Some t \<Rightarrow> 300000 \<le> now - t)"
  by (auto simp: isExpired_def elapsedTimeInSeconds_def diff_seconds_def absFloor_div_def
      FIVE_MINUTES_IN_SECONDS_def Let_def split: option.splits)

lemma isExpired_iff:
  assumes "messageTime message = Finite t" and "moment_isValid t"
  shows "isExpired now message \<longleftrightarrow> 300000 \<le> now - t"
  using assms by (simp add: isExpired_moment moment_def)

text \<open>
  A message of the expected shape always yields a number, so a message whose parsed
  number is \<^verbatim>\<open>NaN\<close> is never of that shape.
\<close>

lemma digit_not_special:
  assumes "isDigit 10 c"
  shows "whiteSpaceLength (c # cs) = 0" "c \<noteq> CHR ''-''" "c \<noteq> CHR ''+''" "c \<noteq> CHR ''x''"
    "c \<noteq> CHR ''X''"
proof -
  from assms have r: "48 \<le> (of_char c :: int) \<and> (of_char c :: int) \<le> 57"
    by (auto simp: isDigit_def digitValue_def Let_def split: if_splits)
  then show "whiteSpaceLength (c # cs) = 0"
    by (auto simp: whiteSpaceLength_def split: list.splits)
  from r show "c \<noteq> CHR ''-''" "c \<noteq> CHR ''+''" "c \<noteq> CHR ''x''" "c \<noteq> CHR ''X''" by auto
qed

lemma toNumber_not_NaN: "toNumber n \<noteq> NaN"
  by (simp add: toNumber_def Let_def)

lemma parseInt_digits:
  assumes "ts \<noteq> []" and "list_all (isDigit 10) ts"
  shows "parseInt ts \<noteq> NaN"
proof -
  from assms obtain c cs where ts: "ts = c # cs" by (cases ts) auto
  with assms have c: "isDigit 10 c" and cs: "list_all (isDigit 10) cs" by auto
  have sk: "skipWhiteSpace ts = ts"
    using digit_not_special(1) [OF c, of cs] ts by (simp add: skipWhiteSpace.simps)
  have "parseInt ts = toNumber (digitsValue 10 ts)"
  proof (cases cs)
    case Nil
    with ts c digit_not_special [OF c] sk show ?thesis
      by (simp add: parseInt_def Let_def)
  next
    case (Cons d ds)
    with cs have d: "isDigit 10 d" by simp
    from Cons cs have twd: "takeWhile (isDigit 10) ds = ds" by (simp add: list_all_iff)
    from Cons ts c d digit_not_special [OF c] digit_not_special [OF d] sk show ?thesis
      by (simp add: parseInt_def Let_def twd)
  qed
  then show ?thesis by (simp add: toNumber_not_NaN)
qed

lemma spec_wellShaped_messageTime:
  "spec_wellShaped message \<Longrightarrow> messageTime message \<noteq> NaN"
  using parseInt_digits
  by (fastforce simp: spec_wellShaped_def messageTime_def split: list.splits)

section \<open>Allocation and acceptance\<close>

text \<open>
  In every state the class can produce the blocks of the chain are allocated objects, so
  constructing a block disturbs none of them and the validation of the chain reads the
  same fields before and after. Every state of normal operation is such a state.
\<close>

lemma addBlock_chain_fresh:
  "fresh (snd (addBlock E now r s)) = fresh s \<and>
   (chain (snd (addBlock E now r s)) = chain s \<or>
    chain (snd (addBlock E now r s)) = chain s @ [r])"
  by (auto simp: addBlock_result assign_def split: sum.splits)

lemma allocated_append_new:
  assumes "\<forall>r \<in> set (chain s). r < fresh s"
  shows "\<forall>r \<in> set (chain (snd (addBlock E now (fst (new_Block E p s)) (snd (new_Block E p s))))).
           r < fresh (snd (addBlock E now (fst (new_Block E p s)) (snd (new_Block E p s))))"
  using assms addBlock_chain_fresh [of E now "fst (new_Block E p s)" "snd (new_Block E p s)"]
  by (auto simp: new_Block_def less_Suc_eq)

lemma reachable_any_allocated:
  "reachable_any E s \<Longrightarrow> \<forall>r \<in> set (chain s). r < fresh s"
proof (induction rule: reachable_any.induct)
  case (any_constructed h f)
  show ?case by (simp add: Blockchain_new_def)
next
  case (any_initialized s now)
  then show ?case
    using allocated_append_new [of s E now "Data ''Genesis Block''"]
    by (auto simp: initializeChain_def split: prod.splits sum.splits)
next
  case (any_allocated s p)
  then show ?case by (auto simp: new_Block_def less_Suc_eq)
next
  case (any_appended s r now)
  then show ?case using addBlock_chain_fresh [of E now r s] by auto
next
  case (any_submitted s now commitTime address message signature star)
  then show ?case
    using allocated_append_new [of s E commitTime "Star address star"]
    by (auto simp: submitStar_def split: prod.splits sum.splits)
next
  case (any_tampered s h)
  then show ?case
    by (auto simp: tamperWithBlockByHeight_def assign_def split: option.splits)
qed

lemma reachable_imp_any: "reachable E s \<Longrightarrow> reachable_any E s"
proof (induction rule: reachable.induct)
  case (constructed h f)
  show ?case by (rule reachable_any.any_constructed)
next
  case (initialized s now)
  then show ?case by (simp add: reachable_any.any_initialized)
next
  case (allocated s p)
  then show ?case by (simp add: reachable_any.any_allocated)
next
  case (appended s r now)
  then show ?case by (simp add: reachable_any.any_appended)
next
  case (submitted s now commitTime address message signature star)
  then show ?case by (simp add: reachable_any.any_submitted)
qed

lemma validateChain_loop_frame:
  assumes "\<forall>r \<in> set (chain s). heap s' r = heap s r" and "chain s' = chain s"
  shows "set rs \<subseteq> set (chain s) \<Longrightarrow>
         validateChain_loop E s' rs acc = validateChain_loop E s rs acc"
proof (induction rs arbitrary: acc)
  case Nil
  show ?case by simp
next
  case (Cons r rs)
  from Cons.prems assms have r: "heap s' r = heap s r" by simp
  have n: "heap s' (chain s ! i) = heap s (chain s ! i)" if "i < length (chain s)" for i
    using assms(1) that by simp
  from Cons.prems have "set rs \<subseteq> set (chain s)" by simp
  note IH = Cons.IH [OF this]
  show ?case
    by (simp add: r assms(2) n IH Let_def split: option.splits)
qed

lemma submitStar_accepts:
  assumes "\<not> isExpired now message" and "verify E message address signature = Inr True"
    and "bc_height s = int (length (chain s)) - 1" and "\<forall>r \<in> set (chain s). r < fresh s"
    and "validateChain_loop E s (chain s) [] = Inr []"
  shows "\<exists>s'. submitStar E now commitTime address message signature star s = (Inr (fresh s), s') \<and>
           chain s' = chain s @ [fresh s] \<and> fresh s \<notin> set (chain s) \<and>
           bc_height s' = bc_height s + 1 \<and>
           height (heap s' (fresh s)) = Some (bc_height s + 1) \<and>
           body (heap s' (fresh s)) = encode E (Star address star) \<and>
           (\<forall>q. q \<noteq> fresh s \<longrightarrow> heap s' q = heap s q)"
proof -
  let ?s1 = "snd (new_Block E (Star address star) s)"
  have nin: "fresh s \<notin> set (chain s)" using assms(4) by auto
  then have "\<forall>r \<in> set (chain s). heap ?s1 r = heap s r" by (auto simp: new_Block_def)
  moreover have c: "chain ?s1 = chain s" by (simp add: new_Block_def)
  ultimately have "validateChain_loop E ?s1 (chain s) [] = validateChain_loop E s (chain s) []"
    by (intro validateChain_loop_frame) auto
  with assms(5) c have v: "validateChain_loop E ?s1 (chain ?s1) [] = Inr []" by simp
  have h: "bc_height ?s1 = bc_height s" by (simp add: new_Block_def)
  from assms(3) have e: "chain s = [] \<longrightarrow> bc_height s + 1 = 0" by auto
  have "submitStar E now commitTime address message signature star s =
          addBlock E commitTime (fresh s) ?s1"
    using assms(1,2) by (simp add: submitStar_def new_Block_def)
  with nin v c h e show ?thesis
    by (auto simp: addBlock_result sealed_fields) (simp_all add: new_Block_def Block_new_def)
qed

section \<open>The loops of the scans\<close>

lemma getStars_loop_spec:
  "getStars_loop E address s rs stars =
     stars @ List.map_filter (\<lambda>r. spec_record E address (heap s r)) rs"
  by (induction rs arbitrary: stars)
    (auto simp: map_filter_simps spec_record_def Let_def split: option.splits)

lemma chain_inv_heights:
  assumes "chain_inv E s"
  shows "map (\<lambda>r. height (heap s r)) (chain s) = map (\<lambda>i. Some (int i)) [0..<length (chain s)]"
  using assms by (intro nth_equalityI) (auto simp: chain_inv_def)

lemma count_block_errors:
  "count_list (block_errors E s q) r \<le> (if q = r then 2 else 0)"
  by (auto simp: block_errors_def split: option.splits)

lemma count_error_log:
  "count_list (concat (map (block_errors E s) rs)) r \<le> 2 * count_list rs r"
proof (induction rs)
  case Nil
  show ?case by simp
next
  case (Cons q rs)
  from count_block_errors [of E s q r] Cons show ?case by auto
qed

lemma subseq_block_errors: "subseq (block_errors E s q) [q, q]"
  by (auto simp: block_errors_def split: option.splits)

lemma subseq_error_log:
  "subseq (concat (map (block_errors E s) rs)) (concat (map (\<lambda>r. [r, r]) rs))"
proof (induction rs)
  case Nil
  show ?case by simp
next
  case (Cons q rs)
  from list_emb_append_mono [OF subseq_block_errors [of E s q] Cons]
  show ?case by simp
qed

section \<open>Claims\<close>

text \<open>
  Claim C1. For every ledger state and every block: if \<^verbatim>\<open>validateChain()\<close> returns a
  non-empty error list, \<^verbatim>\<open>_addBlock(block)\<close> fails with the error ``Blockchain is not
  valid'' and the whole state is as before: the chain, the cached height and every
  field of every object, the committed blocks and the block passed in included.
\<close>

theorem addBlock_rejects_invalid_chain:
  assumes "fst (validateChain E s) = Inr errorLogs" and "errorLogs \<noteq> []"
  shows "addBlock E now r s = (Inl ChainInvalid, s)"
  using assms by (simp add: addBlock_def)

text \<open>
  On the ledger whose blocks at heights 1 and 2 were tampered with, the error list is
  not empty and an append is refused.
\<close>

theorem addBlock_rejects_invalid_chain_witness:
  "fst (validateChain ex_services ex_tampered) = Inr [1, 2, 2] \<and>
   addBlock ex_services 4000 3 ex_tampered = (Inl ChainInvalid, ex_tampered)"
  using addBlock_rejects_invalid_chain [OF ex_tampered_log, of 4000 3] ex_tampered_log by simp

text \<open>
  Claim C2, amended. In every ledger state reached from the constructor's empty ledger
  by \<^verbatim>\<open>initializeChain\<close>, \<^verbatim>\<open>submitStar\<close> and \<^verbatim>\<open>_addBlock(block)\<close> on a block object that is
  not in the chain yet (and whose previous hash is still unset if it becomes the first
  block): the block at index \<open>i\<close> has height \<open>i\<close>, the first block has no previous hash,
  and every later block holds the hash of its predecessor.
\<close>

theorem reachable_heights_and_links:
  assumes "reachable E s"
  shows "(\<forall>i < length (chain s). height (heap s (chain s ! i)) = Some (int i)) \<and>
         (chain s \<noteq> [] \<longrightarrow> previousBlockHash (heap s (chain s ! 0)) = None) \<and>
         (\<forall>i. 0 < i \<and> i < length (chain s) \<longrightarrow>
            previousBlockHash (heap s (chain s ! i)) = hash (heap s (chain s ! (i - 1))))"
proof -
  from assms have "chain_inv E s" by (rule reachable_chain_inv)
  then show ?thesis unfolding chain_inv_def by auto
qed

text \<open>
  After the genesis block, one appended block and one submitted star, the chain is
  \<open>[0, 1, 2]\<close> and the three properties hold at its ends.
\<close>

theorem reachable_heights_and_links_witness:
  "reachable ex_services ex_two \<and> chain ex_two = [0, 1, 2] \<and>
   height (heap ex_two 2) = Some 2 \<and>
   previousBlockHash (heap ex_two 0) = None \<and>
   previousBlockHash (heap ex_two 2) = hash (heap ex_two 1)"
proof -
  note t = reachable_heights_and_links [OF ex_two_reachable]
  have l: "2 < length (chain ex_two)" "0 < (2::nat) \<and> 2 < length (chain ex_two)"
    "chain ex_two \<noteq> []"
    by (simp_all add: ex_two_chain)
  from t l(1) have "height (heap ex_two (chain ex_two ! 2)) = Some (int 2)" by blast
  moreover from t l(3) have "previousBlockHash (heap ex_two (chain ex_two ! 0)) = None"
    by blast
  moreover from t l(2) have "previousBlockHash (heap ex_two (chain ex_two ! 2))
                          = hash (heap ex_two (chain ex_two ! (2 - 1)))"
    by blast
  ultimately show ?thesis using ex_two_reachable by (simp add: ex_two_chain)
qed

text \<open>
  Claim C2 as stated fails when a block object is appended twice. The chain array then
  holds the same object at indices 1 and 2, and the second call of \<^verbatim>\<open>_addBlock\<close> has
  overwritten its height with 2: all three calls succeed and \<^verbatim>\<open>chain[1].height\<close> is 2.
\<close>

theorem append_same_block_twice_counterexample:
  "fst (initializeChain ex_services 1000 ex_empty) = Inr () \<and>
   fst (addBlock ex_services 2000 1 ex_allocated) = Inr 1 \<and>
   fst (addBlock ex_services 3000 1 ex_once) = Inr 1 \<and>
   chain ex_twice = [0, 1, 1] \<and>
   height (heap ex_twice (chain ex_twice ! 1)) = Some 2 \<and>
   height (heap ex_twice (chain ex_twice ! 1)) \<noteq> Some (int 1)"
  by code_simp

text \<open>
  Claim C3, amended. For a message whose second field parses to a timestamp \<open>t\<close> that is
  a valid date: if \<open>t\<close> lies 300 seconds or more before the clock reading (300000
  milliseconds, the boundary included), \<^verbatim>\<open>submitStar\<close> rejects with the expiry message and
  changes nothing; if \<open>t\<close> lies less than 300 seconds before it and the signature
  verifies, then on every ledger the class can be in on which \<^verbatim>\<open>validateChain()\<close> reports
  no error, \<^verbatim>\<open>submitStar\<close> succeeds and appends one new block, whose height is the height
  before plus one, which is also the new cached height. Every ledger of normal operation
  is such a ledger.
\<close>

theorem submitStar_freshness_window:
  assumes "messageTime message = Finite t" and "moment_isValid t"
  shows "(300000 \<le> now - t \<longrightarrow>
            submitStar E now commitTime address message signature star s
              = (Inl ExpiredChallenge, s)) \<and>
         (now - t < 300000 \<and> verify E message address signature = Inr True \<and>
          reachable_any E s \<and> fst (validateChain E s) = Inr [] \<longrightarrow>
            (\<exists>r s'. submitStar E now commitTime address message signature star s = (Inr r, s') \<and>
                chain s' = chain s @ [r] \<and> r \<notin> set (chain s) \<and>
                fst (getChainHeight s') = fst (getChainHeight s) + 1 \<and>
                height (heap s' r) = Some (fst (getChainHeight s) + 1) \<and>
                body (heap s' r) = encode E (Star address star) \<and>
                (\<forall>q. q \<noteq> r \<longrightarrow> heap s' q = heap s q))) \<and>
         (reachable E s \<longrightarrow> reachable_any E s \<and> fst (validateChain E s) = Inr [])"
proof (intro conjI impI)
  assume "300000 \<le> now - t"
  then have "isExpired now message" using assms by (simp add: isExpired_iff)
  then show "submitStar E now commitTime address message signature star s
              = (Inl ExpiredChallenge, s)"
    by (simp add: submitStar_def)
next
  assume a: "now - t < 300000 \<and> verify E message address signature = Inr True \<and>
          reachable_any E s \<and> fst (validateChain E s) = Inr []"
  then have n: "\<not> isExpired now message" using assms by (simp add: isExpired_iff)
  from a have v: "verify E message address signature = Inr True" by simp
  from a have ra: "reachable_any E s" by simp
  from ra have c: "bc_height s = int (length (chain s)) - 1"
    by (rule reachable_any_height_cache)
  from ra have f: "\<forall>r \<in> set (chain s). r < fresh s" by (rule reachable_any_allocated)
  from a have l: "validateChain_loop E s (chain s) [] = Inr []" by (simp add: validateChain_def)
  from submitStar_accepts [OF n v c f l, of commitTime star]
  show "\<exists>r s'. submitStar E now commitTime address message signature star s = (Inr r, s') \<and>
                chain s' = chain s @ [r] \<and> r \<notin> set (chain s) \<and>
                fst (getChainHeight s') = fst (getChainHeight s) + 1 \<and>
                height (heap s' r) = Some (fst (getChainHeight s) + 1) \<and>
                body (heap s' r) = encode E (Star address star) \<and>
                (\<forall>q. q \<noteq> r \<longrightarrow> heap s' q = heap s q)"
    by (auto simp: getChainHeight_def)
next
  assume "reachable E s"
  then show "reachable_any E s" by (rule reachable_imp_any)
next
  assume "reachable E s"
  then have "chain_inv E s" by (rule reachable_chain_inv)
  then show "fst (validateChain E s) = Inr []"
    by (simp add: validateChain_def chain_inv_validateChain)
qed

text \<open>
  A challenge issued at time 2500: submitted at 302500, exactly 300 seconds later, it is
  rejected; submitted at 302499 with a valid signature, it is appended.
\<close>

theorem submitStar_freshness_window_witness:
  "messageTime ''addr:2500:starRegistry'' = Finite 2500 \<and> moment_isValid 2500 \<and>
   submitStar ex_services 302500 302600 ''addr'' ''addr:2500:starRegistry''
       ''addr/addr:2500:starRegistry'' ''rigel'' ex_genesis
     = (Inl ExpiredChallenge, ex_genesis) \<and>
   verify ex_services ''addr:2500:starRegistry'' ''addr'' ''addr/addr:2500:starRegistry''
     = Inr True \<and>
   reachable_any ex_services ex_genesis \<and>
   fst (validateChain ex_services ex_genesis) = Inr [] \<and>
   (\<exists>r s'. submitStar ex_services 302499 302600 ''addr'' ''addr:2500:starRegistry''
               ''addr/addr:2500:starRegistry'' ''rigel'' ex_genesis = (Inr r, s') \<and>
           chain s' = chain ex_genesis @ [r] \<and>
           fst (getChainHeight s') = fst (getChainHeight ex_genesis) + 1) \<and>
   reachable ex_services ex_two \<and> fst (validateChain ex_services ex_two) = Inr []"
proof -
  have m: "messageTime ''addr:2500:starRegistry'' = Finite 2500" by code_simp
  have v: "moment_isValid 2500" by code_simp
  have s: "verify ex_services ''addr:2500:starRegistry'' ''addr''
             ''addr/addr:2500:starRegistry'' = Inr True" by code_simp
  note t = submitStar_freshness_window [OF m v, where E = ex_services
      and commitTime = 302600 and address = "''addr''"
      and signature = "''addr/addr:2500:starRegistry''" and star = "''rigel''"]
  from t [where now = 302500 and s = ex_genesis]
  have 1: "submitStar ex_services 302500 302600 ''addr'' ''addr:2500:starRegistry''
       ''addr/addr:2500:starRegistry'' ''rigel'' ex_genesis
     = (Inl ExpiredChallenge, ex_genesis)" by simp
  from t [where now = 302499 and s = ex_genesis] s ex_genesis_reachable_any ex_genesis_valid
  have 2: "\<exists>r s'. submitStar ex_services 302499 302600 ''addr'' ''addr:2500:starRegistry''
               ''addr/addr:2500:starRegistry'' ''rigel'' ex_genesis = (Inr r, s') \<and>
           chain s' = chain ex_genesis @ [r] \<and>
           fst (getChainHeight s') = fst (getChainHeight ex_genesis) + 1"
    by auto
  from t [where now = 0 and s = ex_two] ex_two_reachable
  have 3: "fst (validateChain ex_services ex_two) = Inr []" by blast
  from m v s 1 2 3 ex_genesis_reachable_any ex_genesis_valid ex_two_reachable
  show ?thesis by blast
qed

text \<open>
  Claim C3 as stated fails in two ways. The timestamp \<open>-8640000000000001\<close> is outside the
  range of a JavaScript date: the moment is invalid, the elapsed time is \<^verbatim>\<open>NaN\<close>, and the
  message, although far more than 300 seconds in the past, is not rejected as expired;
  with a valid signature a block is appended. And on the ledger that was tampered with,
  a message 100 milliseconds old with a valid signature is rejected by \<^verbatim>\<open>_addBlock\<close>.
\<close>

theorem submitStar_freshness_window_counterexample:
  "messageTime ''addr:-8640000000000001:starRegistry'' = Finite (- 8640000000000001) \<and>
   300000 \<le> (2600 :: int) - (- 8640000000000001) \<and>
   fst (submitStar ex_services 2600 2700 ''addr'' ''addr:-8640000000000001:starRegistry''
          ''addr/addr:-8640000000000001:starRegistry'' ''vega'' ex_genesis) = Inr 1 \<and>
   chain (snd (submitStar ex_services 2600 2700 ''addr''
          ''addr:-8640000000000001:starRegistry''
          ''addr/addr:-8640000000000001:starRegistry'' ''vega'' ex_genesis)) = [0, 1] \<and>
   messageTime ''addr:2500:starRegistry'' = Finite 2500 \<and>
   (2600 :: int) - 2500 < 300000 \<and>
   verify ex_services ''addr:2500:starRegistry'' ''addr'' ''addr/addr:2500:starRegistry''
     = Inr True \<and>
   fst (submitStar ex_services 2600 2700 ''addr'' ''addr:2500:starRegistry''
          ''addr/addr:2500:starRegistry'' ''vega'' ex_tampered) = Inl ChainInvalid"
  by code_simp

text \<open>
  Claim C4. For every ledger state: \<^verbatim>\<open>submitStar\<close> with a fresh message (its timestamp
  parses and is less than 300 seconds old) whose signature verification returns false
  rejects with ``Message is not valid'' and leaves the whole state unchanged.
\<close>

theorem submitStar_rejects_bad_signature:
  assumes "messageTime message = Finite t" and "moment_isValid t" and "now - t < 300000"
    and "verify E message address signature = Inr False"
  shows "submitStar E now commitTime address message signature star s = (Inl InvalidSignature, s)"
  using assms by (simp add: submitStar_def isExpired_iff)

theorem submitStar_rejects_bad_signature_witness:
  "messageTime ''addr:2500:starRegistry'' = Finite 2500 \<and> moment_isValid 2500 \<and>
   (2600 :: int) - 2500 < 300000 \<and>
   verify ex_services ''addr:2500:starRegistry'' ''addr'' ''forged'' = Inr False \<and>
   submitStar ex_services 2600 2700 ''addr'' ''addr:2500:starRegistry'' ''forged'' ''rigel''
       ex_tampered
     = (Inl InvalidSignature, ex_tampered)"
proof -
  have m: "messageTime ''addr:2500:starRegistry'' = Finite 2500" by code_simp
  have v: "moment_isValid 2500" by code_simp
  have d: "(2600 :: int) - 2500 < 300000" by simp
  have s: "verify ex_services ''addr:2500:starRegistry'' ''addr'' ''forged'' = Inr False"
    by code_simp
  from submitStar_rejects_bad_signature [OF m v d s] m v d s show ?thesis by blast
qed

text \<open>
  Claim C5, amended. \<^verbatim>\<open>submitStar\<close> has no check of the message's shape and no error for
  a malformed message. The message enters only through the number that \<^verbatim>\<open>parseInt\<close> gives
  for its second colon-delimited field and through the signature verification: two
  messages with the same number and the same verification result have the same outcome.
  When the number is a valid date, the call rejects as expired at 300 seconds or more,
  and is decided by the signature verification and the append otherwise, whatever the
  message's number of fields and its tag. When it is not (\<^verbatim>\<open>NaN\<close> for a missing or
  non-numeric field, or a number outside the range of a date), the call rejects, with
  the state unchanged, whenever the signature does not verify.
\<close>

theorem submitStar_no_shape_check:
  "(moment (messageTime message) = Some t \<longrightarrow>
      submitStar E now commitTime address message signature star s =
        (if 300000 \<le> now - t then (Inl ExpiredChallenge, s)
         else (case verify E message address signature of
                 Inl thrown \<Rightarrow> (Inl (VerifyThrown thrown), s)
               | Inr ok \<Rightarrow>
                   if ok then addBlock E commitTime (fst (new_Block E (Star address star) s))
                                (snd (new_Block E (Star address star) s))
                   else (Inl InvalidSignature, s)))) \<and>
   (moment (messageTime message) = None \<and> verify E message address signature \<noteq> Inr True \<longrightarrow>
      (\<exists>e. submitStar E now commitTime address message signature star s = (Inl e, s))) \<and>
   (messageTime message = messageTime message' \<and>
    verify E message address signature = verify E message' address signature \<longrightarrow>
      submitStar E now commitTime address message signature star s =
      submitStar E now commitTime address message' signature star s)"
proof (intro conjI impI)
  assume "moment (messageTime message) = Some t"
  then have "isExpired now message \<longleftrightarrow> 300000 \<le> now - t" by (simp add: isExpired_moment)
  then show "submitStar E now commitTime address message signature star s =
        (if 300000 \<le> now - t then (Inl ExpiredChallenge, s)
         else (case verify E message address signature of
                 Inl thrown \<Rightarrow> (Inl (VerifyThrown thrown), s)
               | Inr ok \<Rightarrow>
                   if ok then addBlock E commitTime (fst (new_Block E (Star address star) s))
                                (snd (new_Block E (Star address star) s))
                   else (Inl InvalidSignature, s)))"
    by (simp add: submitStar_def split: sum.splits prod.splits)
next
  assume a: "moment (messageTime message) = None \<and>
             verify E message address signature \<noteq> Inr True"
  then have "\<not> isExpired now message" by (simp add: isExpired_moment)
  with a show "\<exists>e. submitStar E now commitTime address message signature star s = (Inl e, s)"
    by (auto simp: submitStar_def split: sum.splits)
next
  assume a: "messageTime message = messageTime message' \<and>
    verify E message address signature = verify E message' address signature"
  then have "isExpired now message = isExpired now message'" by (simp add: isExpired_moment)
  with a show "submitStar E now commitTime address message signature star s =
      submitStar E now commitTime address message' signature star s"
    by (simp add: submitStar_def)
qed

text \<open>
  With a forged signature, \<^verbatim>\<open>addr:2500\<close> (no tag), \<^verbatim>\<open>hello\<close> (no timestamp) and a message
  with a timestamp outside the range of a date are rejected and nothing changes; and
  \<^verbatim>\<open>addr:2500\<close> and \<^verbatim>\<open>x:2500:y:z\<close> have the same outcome.
\<close>

theorem submitStar_no_shape_check_witness:
  "moment (messageTime ''addr:2500'') = Some 2500 \<and>
   submitStar ex_services 2600 2700 ''addr'' ''addr:2500'' ''forged'' ''vega'' ex_genesis
     = (Inl InvalidSignature, ex_genesis) \<and>
   moment (messageTime ''hello'') = None \<and>
   verify ex_services ''hello'' ''addr'' ''forged'' \<noteq> Inr True \<and>
   (\<exists>e. submitStar ex_services 5000 5001 ''addr'' ''hello'' ''forged'' ''vega'' ex_genesis
          = (Inl e, ex_genesis)) \<and>
   moment (messageTime ''addr:-8640000000000001'') = None \<and>
   verify ex_services ''addr:-8640000000000001'' ''addr'' ''forged'' \<noteq> Inr True \<and>
   (\<exists>e. submitStar ex_services 5000 5001 ''addr'' ''addr:-8640000000000001'' ''forged''
           ''vega'' ex_genesis = (Inl e, ex_genesis)) \<and>
   messageTime ''addr:2500'' = messageTime ''x:2500:y:z'' \<and>
   verify ex_services ''addr:2500'' ''addr'' ''forged''
     = verify ex_services ''x:2500:y:z'' ''addr'' ''forged'' \<and>
   submitStar ex_services 2600 2700 ''addr'' ''addr:2500'' ''forged'' ''vega'' ex_genesis
     = submitStar ex_services 2600 2700 ''addr'' ''x:2500:y:z'' ''forged'' ''vega'' ex_genesis"
proof -
  note t = submitStar_no_shape_check [where E = ex_services and address = "''addr''"
      and signature = "''forged''" and star = "''vega''" and s = ex_genesis]
  have m: "moment (messageTime ''addr:2500'') = Some 2500" by code_simp
  have f: "verify ex_services ''addr:2500'' ''addr'' ''forged'' = Inr False" by code_simp
  have n: "moment (messageTime ''hello'') = None" by code_simp
  have g: "verify ex_services ''hello'' ''addr'' ''forged'' \<noteq> Inr True" by code_simp
  have o: "moment (messageTime ''addr:-8640000000000001'') = None" by code_simp
  have h: "verify ex_services ''addr:-8640000000000001'' ''addr'' ''forged'' \<noteq> Inr True"
    by code_simp
  have e: "messageTime ''addr:2500'' = messageTime ''x:2500:y:z''" by code_simp
  have w: "verify ex_services ''addr:2500'' ''addr'' ''forged''
     = verify ex_services ''x:2500:y:z'' ''addr'' ''forged''" by code_simp
  from t [where message = "''addr:2500''" and t = 2500 and now = 2600 and commitTime = 2700]
    m f
  have 1: "submitStar ex_services 2600 2700 ''addr'' ''addr:2500'' ''forged'' ''vega''
             ex_genesis = (Inl InvalidSignature, ex_genesis)"
    by simp
  from t [where message = "''hello''" and now = 5000 and commitTime = 5001] n g
  have 2: "\<exists>e. submitStar ex_services 5000 5001 ''addr'' ''hello'' ''forged'' ''vega''
             ex_genesis = (Inl e, ex_genesis)"
    by blast
  from t [where message = "''addr:-8640000000000001''" and now = 5000 and commitTime = 5001]
    o h
  have 3: "\<exists>e. submitStar ex_services 5000 5001 ''addr'' ''addr:-8640000000000001''
             ''forged'' ''vega'' ex_genesis = (Inl e, ex_genesis)"
    by blast
  from t [where message = "''addr:2500''" and message' = "''x:2500:y:z''" and now = 2600
      and commitTime = 2700] e w
  have 4: "submitStar ex_services 2600 2700 ''addr'' ''addr:2500'' ''forged'' ''vega''
             ex_genesis
     = submitStar ex_services 2600 2700 ''addr'' ''x:2500:y:z'' ''forged'' ''vega'' ex_genesis"
    by blast
  from m 1 n g 2 o h 3 e w 4 show ?thesis by blast
qed

text \<open>
  Claim C5 as stated fails on \<^verbatim>\<open>addr:2500\<close>, which has two fields and no tag, and on
  \<^verbatim>\<open>hello\<close>, which has no colon: neither matches the expected shape, and with a signature
  that verifies for the message \<^verbatim>\<open>submitStar\<close> succeeds and appends a block.
\<close>

theorem submitStar_malformed_accepted_counterexample:
  "\<not> spec_wellShaped ''addr:2500'' \<and>
   fst (submitStar ex_services 2600 2700 ''addr'' ''addr:2500'' ''addr/addr:2500'' ''vega''
     ex_genesis) = Inr 1 \<and>
   chain (snd (submitStar ex_services 2600 2700 ''addr'' ''addr:2500'' ''addr/addr:2500''
     ''vega'' ex_genesis)) = [0, 1] \<and>
   \<not> spec_wellShaped ''hello'' \<and>
   fst (submitStar ex_services 5000 5001 ''addr'' ''hello'' ''addr/hello'' ''vega'' ex_genesis)
     = Inr 1 \<and>
   chain (snd (submitStar ex_services 5000 5001 ''addr'' ''hello'' ''addr/hello'' ''vega''
     ex_genesis)) = [0, 1]"
  by code_simp

text \<open>
  Claim C6. For every address and every ledger state, \<^verbatim>\<open>getStarsByWalletAddress\<close>
  returns exactly the decoded payloads of the blocks that are not the genesis block
  (height 0), decode, and have the address as owner, in chain order; a block that does
  not decode is skipped. On every ledger of normal operation the chain order is the
  ascending order of the heights.
\<close>

theorem getStarsByWalletAddress_spec:
  "fst (getStarsByWalletAddress E address s) = spec_getRecordsByOwner E address s \<and>
   (reachable E s \<longrightarrow>
      map (\<lambda>r. height (heap s r)) (chain s) = map (\<lambda>i. Some (int i)) [0..<length (chain s)])"
proof (intro conjI impI)
  show "fst (getStarsByWalletAddress E address s) = spec_getRecordsByOwner E address s"
    by (simp add: getStarsByWalletAddress_def spec_getRecordsByOwner_def getStars_loop_spec)
next
  assume "reachable E s"
  then have "chain_inv E s" by (rule reachable_chain_inv)
  then show "map (\<lambda>r. height (heap s r)) (chain s)
               = map (\<lambda>i. Some (int i)) [0..<length (chain s)]"
    by (rule chain_inv_heights)
qed

theorem getStarsByWalletAddress_spec_witness:
  "fst (getStarsByWalletAddress ex_services ''addr'' ex_two)
     = [Star ''addr'' ''vega'', Star ''addr'' ''rigel''] \<and>
   reachable ex_services ex_two \<and>
   map (\<lambda>r. height (heap ex_two r)) (chain ex_two) = [Some 0, Some 1, Some 2]"
proof -
  have e: "spec_getRecordsByOwner ex_services ''addr'' ex_two
             = [Star ''addr'' ''vega'', Star ''addr'' ''rigel'']" by code_simp
  have u: "[0..<3] = [0, 1, 2]" by code_simp
  from getStarsByWalletAddress_spec [of ex_services "''addr''" ex_two] e ex_two_reachable
  show ?thesis by (simp add: ex_two_chain u)
qed

text \<open>
  Claim C7, amended. For every ledger state in which \<^verbatim>\<open>validateChain()\<close> returns a list:
  the blocks are visited in chain order, and each visit adds the block once for each
  check it fails, so a block that fails both the hash check and the linkage check is in
  the list twice. The list holds a block at most twice for each of its places in the
  chain.
\<close>

theorem validateChain_error_log:
  assumes "fst (validateChain E s) = Inr errorLog"
  shows "errorLog = concat (map (block_errors E s) (chain s)) \<and>
         (\<forall>r. count_list errorLog r \<le> 2 * count_list (chain s) r) \<and>
         subseq errorLog (concat (map (\<lambda>r. [r, r]) (chain s)))"
proof -
  from assms have "validateChain_loop E s (chain s) [] = Inr errorLog"
    by (simp add: validateChain_def)
  then have "errorLog = concat (map (block_errors E s) (chain s))"
    using validateChain_loop_log by fastforce
  then show ?thesis by (simp add: count_error_log subseq_error_log)
qed

theorem validateChain_error_log_witness:
  "fst (validateChain ex_services ex_tampered) = Inr [1, 2, 2] \<and>
   [1, 2, 2] = concat (map (block_errors ex_services ex_tampered) (chain ex_tampered)) \<and>
   count_list [1, 2, 2] (2 :: ref) \<le> 2 * count_list (chain ex_tampered) 2"
  using validateChain_error_log [OF ex_tampered_log] ex_tampered_log by blast

text \<open>
  Claim C7 as stated fails after the blocks at heights 1 and 2 are tampered with: the
  block at height 2 fails both checks and is in the error list twice.
\<close>

theorem validateChain_double_entry_counterexample:
  "fst (validateChain ex_services ex_tampered) = Inr [1, 2, 2] \<and>
   chain ex_tampered = [0, 1, 2] \<and>
   \<not> validate ex_services (heap ex_tampered 2) \<and>
   previousBlockHash (heap ex_tampered 2) \<noteq> hash (heap ex_tampered 1) \<and>
   count_list [1, 2, 2 :: nat] 2 = 2"
  by code_simp

text \<open>
  Claim C8. In every ledger state that calls of the class's methods can produce,
  \<^verbatim>\<open>getChainHeight()\<close> is the chain length minus one. It is \<open>-1\<close> on the constructor's
  empty ledger and 0 once \<^verbatim>\<open>initializeChain\<close> has completed on it, and after every
  successful \<^verbatim>\<open>_addBlock\<close> it is the height of the last block of the chain.
\<close>

theorem getChainHeight_length_minus_one:
  "(reachable_any E s \<longrightarrow> fst (getChainHeight s) = int (length (chain s)) - 1) \<and>
   fst (getChainHeight (Blockchain_new h f)) = - 1 \<and>
   fst (initializeChain E now (Blockchain_new h f)) = Inr () \<and>
   fst (getChainHeight (snd (initializeChain E now (Blockchain_new h f)))) = 0 \<and>
   (addBlock E now' r s = (Inr b, s') \<longrightarrow>
      chain s' = chain s @ [b] \<and>
      height (heap s' (last (chain s'))) = Some (fst (getChainHeight s')))"
proof (intro conjI impI)
  assume "reachable_any E s"
  then show "fst (getChainHeight s) = int (length (chain s)) - 1"
    by (simp add: getChainHeight_def reachable_any_height_cache)
next
  show "fst (getChainHeight (Blockchain_new h f)) = - 1"
    by (simp add: getChainHeight_def Blockchain_new_def)
next
  have "bc_height (Blockchain_new h f) = - 1" "chain (Blockchain_new h f) = []"
    by (simp_all add: Blockchain_new_def)
  from initializeChain_empty [OF this, of E now]
  show "fst (initializeChain E now (Blockchain_new h f)) = Inr ()"
    and "fst (getChainHeight (snd (initializeChain E now (Blockchain_new h f)))) = 0"
    by (auto simp: getChainHeight_def)
next
  assume a: "addBlock E now' r s = (Inr b, s')"
  then show "chain s' = chain s @ [b]"
    by (auto simp: addBlock_result split: sum.splits if_splits)
  from a show "height (heap s' (last (chain s'))) = Some (fst (getChainHeight s'))"
    by (auto simp: addBlock_result getChainHeight_def sealed_fields split: sum.splits if_splits)
qed

theorem getChainHeight_length_minus_one_witness:
  "reachable_any ex_services ex_tampered \<and>
   fst (getChainHeight ex_tampered) = int (length (chain ex_tampered)) - 1 \<and>
   addBlock ex_services 2000 1 ex_allocated = (Inr 1, ex_once) \<and>
   height (heap ex_once (last (chain ex_once))) = Some (fst (getChainHeight ex_once))"
proof -
  have f: "fst (addBlock ex_services 2000 1 ex_allocated) = Inr 1" by code_simp
  then have a: "addBlock ex_services 2000 1 ex_allocated = (Inr 1, ex_once)"
    by (simp add: ex_once_def prod_eq_iff)
  from getChainHeight_length_minus_one [where E = ex_services and s = ex_tampered]
    ex_tampered_reachable_any
  have 1: "fst (getChainHeight ex_tampered) = int (length (chain ex_tampered)) - 1" by blast
  from getChainHeight_length_minus_one [where E = ex_services and s = ex_allocated
      and now' = 2000 and r = 1 and b = 1 and s' = ex_once] a
  have 2: "height (heap ex_once (last (chain ex_once))) = Some (fst (getChainHeight ex_once))"
    by blast
  from ex_tampered_reachable_any 1 a 2 show ?thesis by blast
qed

text \<open>
  Claim C9. \<^verbatim>\<open>initializeChain\<close> on a ledger whose height is not \<open>-1\<close> changes nothing. On
  a ledger whose height is \<open>-1\<close> it appends exactly one block, a new object with height
  0 whose body is the encoded payload \<^verbatim>\<open>{ data: 'Genesis Block' }\<close>, and changes no other
  object.
\<close>

theorem initializeChain_idempotent:
  "(bc_height s \<noteq> - 1 \<longrightarrow> initializeChain E now s = (Inr (), s)) \<and>
   (bc_height s = - 1 \<and> reachable_any E s \<longrightarrow>
      (\<exists>s'. initializeChain E now s = (Inr (), s') \<and>
            chain s' = chain s @ [fresh s] \<and> length (chain s') = 1 \<and> bc_height s' = 0 \<and>
            body (heap s' (fresh s)) = encode E (Data ''Genesis Block'') \<and>
            height (heap s' (fresh s)) = Some 0 \<and>
            (\<forall>r. r \<noteq> fresh s \<longrightarrow> heap s' r = heap s r)))"
proof (intro conjI impI)
  assume "bc_height s \<noteq> - 1"
  then show "initializeChain E now s = (Inr (), s)" by (simp add: initializeChain_def)
next
  assume a: "bc_height s = - 1 \<and> reachable_any E s"
  then have e: "chain s = []" using reachable_any_height_cache [of E s] by simp
  from a e initializeChain_empty [of s E now]
  show "\<exists>s'. initializeChain E now s = (Inr (), s') \<and>
            chain s' = chain s @ [fresh s] \<and> length (chain s') = 1 \<and> bc_height s' = 0 \<and>
            body (heap s' (fresh s)) = encode E (Data ''Genesis Block'') \<and>
            height (heap s' (fresh s)) = Some 0 \<and>
            (\<forall>r. r \<noteq> fresh s \<longrightarrow> heap s' r = heap s r)"
    by auto
qed

theorem initializeChain_idempotent_witness:
  "bc_height ex_genesis \<noteq> - 1 \<and>
   initializeChain ex_services 5000 ex_genesis = (Inr (), ex_genesis) \<and>
   bc_height ex_empty = - 1 \<and> reachable_any ex_services ex_empty \<and>
   fst (initializeChain ex_services 1000 ex_empty) = Inr () \<and>
   chain ex_genesis = [0] \<and>
   body (heap ex_genesis 0) = encode ex_services (Data ''Genesis Block'')"
proof -
  have g: "bc_height ex_genesis \<noteq> - 1" by code_simp
  have e: "bc_height ex_empty = - 1" by code_simp
  have f: "fresh ex_empty = 0" "chain ex_empty = []" by code_simp+
  have r: "reachable_any ex_services ex_empty"
    unfolding ex_empty_def by (rule reachable_any.any_constructed)
  from initializeChain_idempotent [of ex_genesis ex_services 5000] g
  have 1: "initializeChain ex_services 5000 ex_genesis = (Inr (), ex_genesis)" by blast
  from initializeChain_idempotent [of ex_empty ex_services 1000] e r
  have 2: "fst (initializeChain ex_services 1000 ex_empty) = Inr () \<and>
   chain ex_genesis = [0] \<and>
   body (heap ex_genesis 0) = encode ex_services (Data ''Genesis Block'')"
    by (auto simp: ex_genesis_def f)
  from g 1 e r 2 show ?thesis by blast
qed

text \<open>
  Claim C10. \<^verbatim>\<open>getBlockByHash\<close>, \<^verbatim>\<open>getBlockByHeight\<close>, \<^verbatim>\<open>getStarsByWalletAddress\<close> and
  \<^verbatim>\<open>validateChain\<close> leave the whole state as it was, for every state and argument.
\<close>

theorem readonly_operations_frame:
  "snd (getBlockByHash h s) = s \<and> snd (getBlockByHeight n s) = s \<and>
   snd (getStarsByWalletAddress E address s) = s \<and> snd (validateChain E s) = s"
  by (simp add: getBlockByHash_def getBlockByHeight_def getStarsByWalletAddress_def
      validateChain_def)

theorem readonly_operations_frame_witness:
  "snd (getBlockByHash ''123'' ex_tampered) = ex_tampered \<and>
   snd (getBlockByHeight 1 ex_tampered) = ex_tampered \<and>
   snd (getStarsByWalletAddress ex_services ''addr'' ex_tampered) = ex_tampered \<and>
   snd (validateChain ex_services ex_tampered) = ex_tampered"
  by (rule readonly_operations_frame)

end
